theory Spec2Isabelle
  imports Complex_Main "HOL-Library.Word"
begin

unbundle bit_operations_syntax

section \<open>Bytes, WebSocket messages and JSON values\<close>

text \<open>
  A Go \<^verbatim>\<open>[]byte\<close> is a list of 8-bit words. A WebSocket message is the pair that
  gorilla/websocket's \<^verbatim>\<open>ReadMessage\<close> returns and \<^verbatim>\<open>WriteMessage\<close> takes: the message type
  (an \<^verbatim>\<open>int\<close>) and the payload. The message type constants are gorilla's.
\<close>

type_synonym byte = "8 word"

type_synonym ws_message = "int \<times> byte list"

definition TextMessage :: int where
  "TextMessage = 1"

definition BinaryMessage :: int where
  "BinaryMessage = 2"

definition PingMessage :: int where
  "PingMessage = 9"

text \<open>
  A Go string literal compared with \<^verbatim>\<open>string(data)\<close>: the comparison holds exactly when
  \<^verbatim>\<open>data\<close> is the literal's bytes.
\<close>

definition bytes_of :: "string \<Rightarrow> byte list" where
  "bytes_of s = map of_char s"

text \<open>
  The values of Go's \<^verbatim>\<open>any\<close> that \<^verbatim>\<open>encoding/json\<close> produces and consumes.
  \<^verbatim>\<open>type openAIEvent map[string]any\<close> is an association list read with \<open>map_of\<close>.
\<close>

datatype json =
    JNull
  | JBool bool
  | JNumber rat
  | JString string
  | JArray "json list"
  | JObject "(string \<times> json) list"

type_synonym openAIEvent = "(string \<times> json) list"

text \<open>
  \<^verbatim>\<open>encoding/json\<close> is the Go standard library, not code of this repository: the three
  functions the handler calls are parameters of the model. \<^verbatim>\<open>json.Unmarshal(msg, &evt)\<close>
  returns an error (\<open>None\<close>) or fills the map.
\<close>

record json_lib =
  json_Unmarshal :: "byte list \<Rightarrow> openAIEvent option"
  json_Marshal :: "json \<Rightarrow> byte list"
  json_MarshalIndent :: "openAIEvent \<Rightarrow> byte list"

text \<open>\<^verbatim>\<open>s, _ := evt[k].(string)\<close>: the empty string when the key is absent or not a string.\<close>

definition string_field :: "openAIEvent \<Rightarrow> string \<Rightarrow> string" where
  "string_field evt k = (case map_of evt k of Some (JString s) \<Rightarrow> s | _ \<Rightarrow> [])"

section \<open>base64.StdEncoding\<close>

text \<open>
  \<^verbatim>\<open>encoding/base64\<close> is the Go standard library. \<^verbatim>\<open>StdEncoding\<close> is RFC 4648 base64 with
  the standard alphabet and \<^verbatim>\<open>=\<close> padding; decoding is not strict (the unused low bits of
  a padded group are not checked) and ignores carriage returns and line feeds.
  Go packs a group into a \<^verbatim>\<open>uint\<close>, here a 64-bit word.
\<close>

definition encodeStd :: string where
  "encodeStd = ''ABCDEFGHIJKLMNOPQRSTUVWXYZabcdefghijklmnopqrstuvwxyz0123456789+/''"

definition padChar :: char where
  "padChar = CHR ''=''"

text \<open>\<^verbatim>\<open>enc.encode[v & 0x3F]\<close>\<close>

definition encode :: "64 word \<Rightarrow> char" where
  "encode v = encodeStd ! unat (v AND 0x3F)"

text \<open>\<^verbatim>\<open>enc.decodeMap[c]\<close>, with \<open>None\<close> for Go's \<^verbatim>\<open>0xff\<close> (not a character of the alphabet).\<close>

definition decodeMap :: "char \<Rightarrow> 64 word option" where
  "decodeMap c = map_option of_nat (map_of (zip encodeStd [0..<64]) c)"

fun EncodeToString :: "byte list \<Rightarrow> string" where
  "EncodeToString [] = []"
| "EncodeToString [b0] =
     (let val = push_bit 16 (ucast b0) in
      [encode (drop_bit 18 val), encode (drop_bit 12 val), padChar, padChar])"
| "EncodeToString [b0, b1] =
     (let val = push_bit 16 (ucast b0) OR push_bit 8 (ucast b1) in
      [encode (drop_bit 18 val), encode (drop_bit 12 val), encode (drop_bit 6 val), padChar])"
| "EncodeToString (b0 # b1 # b2 # rest) =
     (let val = push_bit 16 (ucast b0) OR push_bit 8 (ucast b1) OR ucast b2 in
      [encode (drop_bit 18 val), encode (drop_bit 12 val), encode (drop_bit 6 val), encode val]
      @ EncodeToString rest)"

datatype b64_error = CorruptInputError

text \<open>\<^verbatim>\<open>val := uint(dbuf[0])<<18 | uint(dbuf[1])<<12 | uint(dbuf[2])<<6 | uint(dbuf[3])\<close>\<close>

definition quantum :: "64 word \<Rightarrow> 64 word \<Rightarrow> 64 word \<Rightarrow> 64 word \<Rightarrow> 64 word" where
  "quantum d0 d1 d2 d3 = push_bit 18 d0 OR push_bit 12 d1 OR push_bit 6 d2 OR d3"

text \<open>
  Decoding the input with its line breaks removed, four characters at a time. A full
  group gives three bytes; padding is accepted only in the last group, one \<^verbatim>\<open>=\<close> for two
  bytes and two for one byte; anything else is \<^verbatim>\<open>CorruptInputError\<close>.
\<close>

fun decodeQuanta :: "string \<Rightarrow> b64_error + byte list" where
  "decodeQuanta [] = Inr []"
| "decodeQuanta (c0 # c1 # c2 # c3 # rest) =
     (case decodeMap c0 of
        None \<Rightarrow> Inl CorruptInputError
      | Some d0 \<Rightarrow>
     (case decodeMap c1 of
        None \<Rightarrow> Inl CorruptInputError
      | Some d1 \<Rightarrow>
     (case decodeMap c2 of
        None \<Rightarrow>
          if c2 = padChar \<and> c3 = padChar \<and> rest = []
          then Inr [ucast (drop_bit 16 (quantum d0 d1 0 0))]
          else Inl CorruptInputError
      | Some d2 \<Rightarrow>
     (case decodeMap c3 of
        None \<Rightarrow>
          if c3 = padChar \<and> rest = []
          then Inr [ucast (drop_bit 16 (quantum d0 d1 d2 0)),
                    ucast (drop_bit 8 (quantum d0 d1 d2 0))]
          else Inl CorruptInputError
      | Some d3 \<Rightarrow>
          (case decodeQuanta rest of
             Inl e \<Rightarrow> Inl e
           | Inr bs \<Rightarrow>
               Inr (ucast (drop_bit 16 (quantum d0 d1 d2 d3))
                    # ucast (drop_bit 8 (quantum d0 d1 d2 d3))
                    # ucast (quantum d0 d1 d2 d3) # bs))))))"
| "decodeQuanta _ = Inl CorruptInputError"

definition is_newline :: "char \<Rightarrow> bool" where
  "is_newline c = (c = CHR 0x0A \<or> c = CHR 0x0D)"

definition DecodeString :: "string \<Rightarrow> b64_error + byte list" where
  "DecodeString s = decodeQuanta (filter (\<lambda>c. \<not> is_newline c) s)"

section \<open>The session handler \<^verbatim>\<open>handleClientWS\<close>\<close>

text \<open>
  What the handler does beyond its return value: the \<^verbatim>\<open>WriteMessage\<close> calls it issues on
  the client connection (the error a call returns is ignored or only logged), the calls it
  makes on the upstream writer, whether it has called \<^verbatim>\<open>cancel()\<close>, and its log lines.
\<close>

datatype writer_call = SendControl json | SendAudio json

datatype log_entry =
    LogClientConnected
  | LogSessionUpdateSent
  | LogOpenAIReadError
  | LogOpenAIJsonError
  | LogOpenAIErrorEvent "byte list"
  | LogDecodeDeltaError
  | LogSendingPCM nat
  | LogFailedSendPCM
  | LogResponseDone
  | LogOpenAIEvent string
  | LogClientDisconnected
  | LogClientReadError
  | LogCmdClear
  | LogCmdCancel
  | LogCmdForce
  | LogClientText "byte list"

record session =
  client_writes :: "ws_message list"
  openai_calls :: "writer_call list"
  cancelled :: bool
  logged :: "log_entry list"

text \<open>
  One \<^verbatim>\<open>ReadMessage\<close> call: an error (the flag is \<^verbatim>\<open>websocket.IsCloseError\<close> for the three
  normal close codes) or a message.
\<close>

datatype read_result = ReadError bool | ReadOK int "byte list"

datatype flow = Continue | Return

definition rateHz :: rat where
  "rateHz = 24000"

text \<open>The \<^verbatim>\<open>instructions\<close> text of the session, as its UTF-8 bytes.\<close>

definition instructions :: string where
  "instructions =
     [CHR 0xE8, CHR 0xAB, CHR 0x8B, CHR 0xE7, CHR 0x94, CHR 0xA8, CHR 0xE4, CHR 0xB8, CHR 0xAD,
      CHR 0xE6, CHR 0x96, CHR 0x87, CHR 0xE8, CHR 0x88, CHR 0x87, CHR 0xE4, CHR 0xBD, CHR 0xBF,
      CHR 0xE7, CHR 0x94, CHR 0xA8, CHR 0xE8, CHR 0x80, CHR 0x85, CHR 0xE8, CHR 0x87, CHR 0xAA,
      CHR 0xE7, CHR 0x84, CHR 0xB6, CHR 0xE5, CHR 0xB0, CHR 0x8D, CHR 0xE8, CHR 0xA9, CHR 0xB1,
      CHR 0xEF, CHR 0xBC, CHR 0x8C, CHR 0xE5, CHR 0x9B, CHR 0x9E, CHR 0xE8, CHR 0xA6, CHR 0x86,
      CHR 0xE4, CHR 0xBB, CHR 0xA5, CHR 0xE8, CHR 0xAA, CHR 0x9E, CHR 0xE9, CHR 0x9F, CHR 0xB3,
      CHR 0xE7, CHR 0x82, CHR 0xBA, CHR 0xE4, CHR 0xB8, CHR 0xBB, CHR 0xE3, CHR 0x80, CHR 0x82]"

text \<open>The \<^verbatim>\<open>session.update\<close> event sent first on the control lane.\<close>

definition session_update :: json where
  "session_update = JObject
     [(''type'', JString ''session.update''),
      (''session'', JObject
        [(''type'', JString ''realtime''),
         (''instructions'', JString instructions),
         (''output_modalities'', JArray [JString ''audio'']),
         (''audio'', JObject
           [(''input'', JObject
              [(''format'', JObject [(''type'', JString ''audio/pcm''), (''rate'', JNumber rateHz)]),
               (''turn_detection'', JObject
                  [(''type'', JString ''server_vad''),
                   (''threshold'', JNumber (1 / 2)),
                   (''prefix_padding_ms'', JNumber 300),
                   (''silence_duration_ms'', JNumber 600),
                   (''create_response'', JBool True)])]),
            (''output'', JObject
              [(''format'', JObject [(''type'', JString ''audio/pcm''), (''rate'', JNumber rateHz)]),
               (''voice'', JString ''marin''),
               (''speed'', JNumber 1)])])])]"

text \<open>
  The session once both sockets are open and \<^verbatim>\<open>session.update\<close> has been handed to the
  writer. The request \<^verbatim>\<open>r\<close> is used for the upgrade only: the handler reads no query
  parameter. The pings that \<^verbatim>\<open>pingLoop\<close> writes to the client under the same mutex are
  not part of \<open>client_writes\<close>, which lists the writes of the handler's receiver.
\<close>

definition session_start :: session where
  "session_start =
     \<lparr>client_writes = [], openai_calls = [SendControl session_update], cancelled = False,
      logged = [LogClientConnected, LogSessionUpdateSent]\<rparr>"

text \<open>
  One iteration of the goroutine that reads the upstream socket (lines 124 to 174).
  \<open>werr\<close> says whether the \<^verbatim>\<open>WriteMessage\<close> call of this iteration, if any, returns an
  error.
\<close>

fun openai_receiver_step :: "json_lib \<Rightarrow> read_result \<Rightarrow> bool \<Rightarrow> session \<Rightarrow> flow \<times> session" where
  "openai_receiver_step L (ReadError c) werr s =
     (Return, s\<lparr>cancelled := True, logged := logged s @ [LogOpenAIReadError]\<rparr>)"
| "openai_receiver_step L (ReadOK mt msg) werr s =
     (case json_Unmarshal L msg of
        None \<Rightarrow> (Continue, s\<lparr>logged := logged s @ [LogOpenAIJsonError]\<rparr>)
      | Some evt \<Rightarrow>
          (let t = string_field evt ''type'' in
           if t = ''error'' then
             (let pretty = json_MarshalIndent L evt in
              (Continue, s\<lparr>client_writes := client_writes s @ [(TextMessage, pretty)],
                            logged := logged s @ [LogOpenAIErrorEvent pretty]\<rparr>))
           else if t = ''response.output_audio.delta'' then
             (case DecodeString (string_field evt ''delta'') of
                Inl e \<Rightarrow> (Continue, s\<lparr>logged := logged s @ [LogDecodeDeltaError]\<rparr>)
              | Inr pcm \<Rightarrow>
                  (Continue, s\<lparr>client_writes := client_writes s @ [(BinaryMessage, pcm)],
                                logged := logged s @ [LogSendingPCM (length pcm)]
                                  @ (if werr then [LogFailedSendPCM] else [])\<rparr>))
           else if t = ''response.done'' then
             (Continue, s\<lparr>logged := logged s @ [LogResponseDone]\<rparr>)
           else (Continue, s\<lparr>logged := logged s @ [LogOpenAIEvent t]\<rparr>)))"

text \<open>
  The goroutine's loop over the results of its successive reads; it ends at the first read
  error, and with no read left it is blocked in \<^verbatim>\<open>ReadMessage\<close>.
\<close>

fun openai_receiver :: "json_lib \<Rightarrow> (read_result \<times> bool) list \<Rightarrow> session \<Rightarrow> session" where
  "openai_receiver L [] s = s"
| "openai_receiver L ((rd, werr) # rest) s =
     (case openai_receiver_step L rd werr s of
        (Return, s') \<Rightarrow> s'
      | (Continue, s') \<Rightarrow> openai_receiver L rest s')"

text \<open>One iteration of the loop that reads the client socket (lines 178 to 226).\<close>

definition append_event :: "byte list \<Rightarrow> json" where
  "append_event data = JObject
     [(''type'', JString ''input_audio_buffer.append''),
      (''audio'', JString (EncodeToString data))]"

fun client_reader_step :: "read_result \<Rightarrow> session \<Rightarrow> flow \<times> session" where
  "client_reader_step (ReadError c) s =
     (Return, s\<lparr>cancelled := True,
                 logged := logged s @ [if c then LogClientDisconnected else LogClientReadError]\<rparr>)"
| "client_reader_step (ReadOK msgType data) s =
     (if msgType = BinaryMessage then
        (Continue, s\<lparr>openai_calls := openai_calls s @ [SendAudio (append_event data)]\<rparr>)
      else if msgType = TextMessage then
        (if data = bytes_of ''clear'' then
           (Continue, s\<lparr>openai_calls := openai_calls s
                @ [SendControl (JObject [(''type'', JString ''input_audio_buffer.clear'')])],
              logged := logged s @ [LogCmdClear]\<rparr>)
         else if data = bytes_of ''cancel'' then
           (Continue, s\<lparr>openai_calls := openai_calls s
                @ [SendControl (JObject [(''type'', JString ''response.cancel'')])],
              logged := logged s @ [LogCmdCancel]\<rparr>)
         else if data = bytes_of ''force'' then
           (Continue, s\<lparr>openai_calls := openai_calls s
                @ [SendControl (JObject
                     [(''type'', JString ''response.create''),
                      (''response'', JObject [(''output_modalities'', JArray [JString ''audio''])])])],
              logged := logged s @ [LogCmdForce]\<rparr>)
         else (Continue, s\<lparr>logged := logged s @ [LogClientText data]\<rparr>))
      else (Continue, s))"

fun client_reader :: "read_result list \<Rightarrow> session \<Rightarrow> session" where
  "client_reader [] s = s"
| "client_reader (rd # rest) s =
     (case client_reader_step rd s of
        (Return, s') \<Rightarrow> s'
      | (Continue, s') \<Rightarrow> client_reader rest s')"

text \<open>A field of a JSON object.\<close>

fun json_field :: "json \<Rightarrow> string \<Rightarrow> json option" where
  "json_field (JObject kvs) k = map_of kvs k"
| "json_field _ k = None"

section \<open>The single writer \<^verbatim>\<open>WSWriter\<close>\<close>

text \<open>
  \<^verbatim>\<open>SendControl\<close> and \<^verbatim>\<open>SendAudio\<close> marshal their argument first; what travels on the
  channels is the marshalled bytes.
\<close>

datatype call = CallControl "byte list" | CallAudio "byte list"

fun marshal_call :: "json_lib \<Rightarrow> writer_call \<Rightarrow> call" where
  "marshal_call L (SendControl v) = CallControl (json_Marshal L v)"
| "marshal_call L (SendAudio v) = CallAudio (json_Marshal L v)"

text \<open>
  The goroutine that calls the writer is between two calls (\<open>Idle\<close>), or inside
  \<^verbatim>\<open>SendAudio\<close>'s \<^verbatim>\<open>default\<close> branch: before the receive \<^verbatim>\<open><-w.audioCh\<close> (\<open>Evict\<close>) or before
  the send \<^verbatim>\<open>w.audioCh <- b\<close> that follows it (\<open>Refill\<close>).
\<close>

datatype producer_pc = Idle | Evict "byte list" | Refill "byte list"

datatype lane = Control | Audio | Ping

text \<open>
  \<^verbatim>\<open>loop\<close> is at its \<^verbatim>\<open>select\<close>, or inside \<^verbatim>\<open>WriteMessage\<close> for the item it received, or
  has returned: \<open>Stopped None\<close> on \<^verbatim>\<open>ctx.Done()\<close>, \<open>Stopped (Some x)\<close> when the write of
  \<open>x\<close> failed.
\<close>

datatype loop_pc = Select | Writing lane "byte list" | Stopped "(lane \<times> byte list) option"

text \<open>
  The writer and the goroutines around it. \<open>todo\<close> are the calls the producer has still
  to make, the first one being the call it is in or blocked in; \<open>returned\<close> are the
  calls that have returned. \<open>audioCh\<close> is the buffer of the channel of capacity 4;
  \<open>controlCh\<close> has no buffer, so a control message passes from the producer to the loop
  in one step. \<open>wire\<close> lists the \<^verbatim>\<open>WriteMessage\<close> calls that succeeded on the upstream
  socket, each with the lane it was served from.
\<close>

record writer =
  todo :: "call list"
  returned :: "call list"
  pc :: producer_pc
  audioCh :: "byte list list"
  tick :: bool
  ctx_done :: bool
  loop :: loop_pc
  wire :: "(lane \<times> ws_message) list"

definition audioCap :: nat where
  "audioCap = 4"

definition NewWSWriter :: "call list \<Rightarrow> writer" where
  "NewWSWriter calls =
     \<lparr>todo = calls, returned = [], pc = Idle, audioCh = [], tick = False, ctx_done = False,
      loop = Select, wire = []\<rparr>"

text \<open>
  What can happen next. \<open>Tick\<close>: the ticker fires. \<open>Cancel\<close>: the context is cancelled.
  \<open>Producer\<close>: the producer runs the next statement of \<^verbatim>\<open>SendAudio\<close>. \<open>LoopDone\<close>,
  \<open>LoopControl\<close>, \<open>LoopAudio\<close>, \<open>LoopPing\<close>: the loop's \<^verbatim>\<open>select\<close> takes that case.
  \<open>WriteOK\<close>, \<open>WriteErr\<close>: the \<^verbatim>\<open>WriteMessage\<close> call in progress returns.
\<close>

datatype event =
  Tick | Cancel | Producer | LoopDone | LoopControl | LoopAudio | LoopPing | WriteOK | WriteErr

text \<open>The message \<^verbatim>\<open>loop\<close> writes for an item of a lane.\<close>

fun frame_of :: "lane \<Rightarrow> byte list \<Rightarrow> ws_message" where
  "frame_of Control m = (TextMessage, m)"
| "frame_of Audio m = (TextMessage, m)"
| "frame_of Ping m = (PingMessage, [])"

text \<open>
  \<^verbatim>\<open>SendAudio\<close>, statement by statement. The \<^verbatim>\<open>select\<close> sends when the buffer has room and
  takes \<^verbatim>\<open>default\<close> otherwise; the receive and the send of the \<^verbatim>\<open>default\<close> branch block
  (the state stays as it is) while the buffer is empty, respectively full.
\<close>

definition producer_step :: "writer \<Rightarrow> writer" where
  "producer_step s =
     (case pc s of
        Idle \<Rightarrow>
          (case todo s of
             CallAudio b # rest \<Rightarrow>
               if length (audioCh s) < audioCap
               then s\<lparr>audioCh := audioCh s @ [b], todo := rest,
                      returned := returned s @ [CallAudio b]\<rparr>
               else s\<lparr>pc := Evict b\<rparr>
           | _ \<Rightarrow> s)
      | Evict b \<Rightarrow>
          (case audioCh s of
             [] \<Rightarrow> s
           | a # q \<Rightarrow> s\<lparr>audioCh := q, pc := Refill b\<rparr>)
      | Refill b \<Rightarrow>
          if length (audioCh s) < audioCap
          then s\<lparr>audioCh := audioCh s @ [b], pc := Idle, todo := tl (todo s),
                 returned := returned s @ [CallAudio b]\<rparr>
          else s)"

text \<open>
  One step of the system. Go's \<^verbatim>\<open>select\<close> takes any one of the cases that can proceed
  (chosen at random when several can): each \<open>Loop\<close> event is a step exactly when its case
  can proceed, whatever the other cases. The receive from \<open>controlCh\<close> can proceed when
  the producer is blocked in \<^verbatim>\<open>SendControl\<close>'s send, and completes that call. An event
  that cannot happen in a state leaves it as it is.
\<close>

fun step :: "event \<Rightarrow> writer \<Rightarrow> writer" where
  "step Tick s = s\<lparr>tick := True\<rparr>"
| "step Cancel s = s\<lparr>ctx_done := True\<rparr>"
| "step Producer s = producer_step s"
| "step LoopDone s =
     (if loop s = Select \<and> ctx_done s then s\<lparr>loop := Stopped None\<rparr> else s)"
| "step LoopControl s =
     (if loop s = Select \<and> pc s = Idle then
        (case todo s of
           CallControl m # rest \<Rightarrow>
             s\<lparr>todo := rest, returned := returned s @ [CallControl m], loop := Writing Control m\<rparr>
         | _ \<Rightarrow> s)
      else s)"
| "step LoopAudio s =
     (if loop s = Select then
        (case audioCh s of
           [] \<Rightarrow> s
         | a # q \<Rightarrow> s\<lparr>audioCh := q, loop := Writing Audio a\<rparr>)
      else s)"
| "step LoopPing s =
     (if loop s = Select \<and> tick s then s\<lparr>tick := False, loop := Writing Ping []\<rparr> else s)"
| "step WriteOK s =
     (case loop s of
        Writing l m \<Rightarrow> s\<lparr>wire := wire s @ [(l, frame_of l m)], loop := Select\<rparr>
      | _ \<Rightarrow> s)"
| "step WriteErr s =
     (case loop s of
        Writing l m \<Rightarrow> s\<lparr>loop := Stopped (Some (l, m))\<rparr>
      | _ \<Rightarrow> s)"

fun run :: "event list \<Rightarrow> writer \<Rightarrow> writer" where
  "run [] s = s"
| "run (e # es) s = run es (step e s)"

text \<open>The control messages among calls and among writes, in order.\<close>

fun control_calls :: "call list \<Rightarrow> byte list list" where
  "control_calls [] = []"
| "control_calls (CallControl m # cs) = m # control_calls cs"
| "control_calls (CallAudio m # cs) = control_calls cs"

fun control_writes :: "(lane \<times> ws_message) list \<Rightarrow> byte list list" where
  "control_writes [] = []"
| "control_writes ((Control, f) # ws) = snd f # control_writes ws"
| "control_writes ((l, f) # ws) = control_writes ws"

text \<open>
  The control message the loop has received and not written: the one inside
  \<^verbatim>\<open>WriteMessage\<close>, or the one whose write failed and ended the loop.
\<close>

fun control_unwritten :: "loop_pc \<Rightarrow> byte list list" where
  "control_unwritten (Writing Control m) = [m]"
| "control_unwritten (Stopped (Some (Control, m))) = [m]"
| "control_unwritten _ = []"

section \<open>The documented downstream frame\<close>

text \<open>
  The binary frame as the specification and the repository's front-end notes give it, for
  comparison with what the handler writes: in framed mode one tag byte \<^verbatim>\<open>0x01\<close>, the
  generation as eight bytes, least significant first, then the PCM bytes; in raw mode the
  PCM bytes alone. \<open>spec_frame_generation\<close> is how a client reads the generation of a
  frame laid out that way.
\<close>

definition le64 :: "64 word \<Rightarrow> byte list" where
  "le64 g = map (\<lambda>i. ucast (drop_bit (8 * i) g)) [0..<8]"

definition spec_currentFrame :: "bool \<Rightarrow> 64 word \<Rightarrow> byte list \<Rightarrow> byte list" where
  "spec_currentFrame rawMode gen pcm = (if rawMode then pcm else 0x01 # le64 gen @ pcm)"

fun from_le :: "byte list \<Rightarrow> 64 word" where
  "from_le [] = 0"
| "from_le (b # bs) = ucast b OR push_bit 8 (from_le bs)"

definition spec_frame_generation :: "byte list \<Rightarrow> 64 word option" where
  "spec_frame_generation frame =
     (if 9 \<le> length frame \<and> hd frame = 0x01 then Some (from_le (take 8 (tl frame))) else None)"

section \<open>Auxiliary definitions\<close>

text \<open>Go's \<^verbatim>\<open>uint(b0)<<16 | uint(b1)<<8 | uint(b2)\<close>, the value a group of three bytes is packed into.\<close>

definition pack :: "byte \<Rightarrow> byte \<Rightarrow> byte \<Rightarrow> 64 word" where
  "pack b0 b1 b2 = push_bit 16 (ucast b0) OR push_bit 8 (ucast b1) OR ucast b2"

text \<open>
  A JSON library for examples, given by the finite table of the messages it decodes; every
  other message is a decoding error.
\<close>

definition example_lib :: "(byte list \<times> openAIEvent) list \<Rightarrow> json_lib" where
  "example_lib table =
     \<lparr>json_Unmarshal = map_of table,
      json_Marshal = (\<lambda>v. []),
      json_MarshalIndent = (\<lambda>evt. bytes_of (string_field evt ''type''))\<rparr>"

text \<open>
  A malformed upstream unit: a message that is not JSON, or an audio delta whose payload
  is not base64.
\<close>

definition malformed :: "json_lib \<Rightarrow> byte list \<Rightarrow> bool" where
  "malformed L msg =
     (case json_Unmarshal L msg of
        None \<Rightarrow> True
      | Some evt \<Rightarrow>
          string_field evt ''type'' = ''response.output_audio.delta''
          \<and> isl (DecodeString (string_field evt ''delta'')))"

text \<open>Two sessions that differ in their log lines at most.\<close>

definition same_effects :: "session \<Rightarrow> session \<Rightarrow> bool" where
  "same_effects s t =
     (client_writes s = client_writes t \<and> openai_calls s = openai_calls t
      \<and> cancelled s = cancelled t)"

text \<open>
  Inside \<^verbatim>\<open>SendAudio\<close>'s \<^verbatim>\<open>default\<close> branch the call in progress is the first of \<open>todo\<close>.
\<close>

fun in_call :: "producer_pc \<Rightarrow> call list \<Rightarrow> bool" where
  "in_call Idle cs = True"
| "in_call (Evict b) (CallAudio b' # cs) = (b = b')"
| "in_call (Refill b) (CallAudio b' # cs) = (b = b')"
| "in_call p cs = False"

definition progress_inv :: "call list \<Rightarrow> writer \<Rightarrow> bool" where
  "progress_inv calls s = (returned s @ todo s = calls \<and> in_call (pc s) (todo s))"

definition order_inv :: "writer \<Rightarrow> bool" where
  "order_inv s =
     (control_writes (wire s) @ control_unwritten (loop s) = control_calls (returned s))"

section \<open>Base64: decoding undoes encoding\<close>

lemma distinct_encodeStd: "distinct encodeStd"
  by (simp add: encodeStd_def)

lemma length_encodeStd: "length encodeStd = 64"
  by (simp add: encodeStd_def)

lemma sextet_less: "unat ((v::64 word) AND 0x3F) < 64"
proof -
  have "v AND 0x3F \<le> 0x3F" by (rule word_and_le1)
  then show ?thesis by (simp add: word_le_nat_alt)
qed

lemma decodeMap_encode: "decodeMap (encode v) = Some (v AND 0x3F)"
proof -
  let ?i = "unat (v AND 0x3F)"
  have i: "?i < 64" by (rule sextet_less)
  have "map_of (zip encodeStd [0..<64]) (encodeStd ! ?i) = Some ([0..<64] ! ?i)"
    using i by (intro map_of_zip_nth) (simp_all add: distinct_encodeStd length_encodeStd)
  then show ?thesis using i by (simp add: decodeMap_def encode_def)
qed

lemma decodeMap_padChar: "decodeMap padChar = None"
proof -
  have "padChar \<notin> set encodeStd" by (simp add: padChar_def encodeStd_def)
  moreover have "length encodeStd = length [0..<64]" by (simp add: length_encodeStd)
  ultimately have "map_of (zip encodeStd [0..<64]) padChar = None"
    using map_of_zip_is_None [of encodeStd "[0..<64]" padChar] by blast
  then show ?thesis by (simp add: decodeMap_def)
qed

lemma encode_in_alphabet: "encode v \<in> set encodeStd"
  using sextet_less [of v] by (simp add: encode_def length_encodeStd)

lemma alphabet_no_newline: "c \<in> set encodeStd \<Longrightarrow> \<not> is_newline c"
  by (auto simp add: encodeStd_def is_newline_def)

lemma encode_no_newline: "\<not> is_newline (encode v)"
  by (rule alphabet_no_newline [OF encode_in_alphabet])

lemma padChar_no_newline: "\<not> is_newline padChar"
  by (simp add: is_newline_def padChar_def)

lemma EncodeToString_no_newline:
  "filter (\<lambda>c. \<not> is_newline c) (EncodeToString d) = EncodeToString d"
  by (induction d rule: EncodeToString.induct)
     (simp_all add: Let_def encode_no_newline padChar_no_newline)

lemma sextet_take: "(x::64 word) AND 0x3F = take_bit 6 x"
  by (simp add: take_bit_eq_mask mask_eq_exp_minus_1)

lemma bit_pack:
  "bit (pack b0 b1 b2) n =
     (if n < 8 then bit b2 n else if n < 16 then bit b1 (n - 8)
      else if n < 24 then bit b0 (n - 16) else False)"
  by (auto simp add: pack_def bit_simps dest: bit_imp_le_length)

text \<open>The four sextets of a value put together again are its low 24 bits.\<close>

lemma bit_quantum4:
  "bit (quantum (take_bit 6 (drop_bit 18 v)) (take_bit 6 (drop_bit 12 v))
          (take_bit 6 (drop_bit 6 v)) (take_bit 6 v)) n = (n < 24 \<and> bit v n)"
  by (cases "n < 6"; cases "n < 12"; cases "n < 18"; cases "n < 24";
      auto simp add: quantum_def bit_simps dest: bit_imp_le_length)

lemma bit_quantum3:
  "bit (quantum (take_bit 6 (drop_bit 18 v)) (take_bit 6 (drop_bit 12 v))
          (take_bit 6 (drop_bit 6 v)) 0) n = (6 \<le> n \<and> n < 24 \<and> bit v n)"
  by (cases "n < 6"; cases "n < 12"; cases "n < 18"; cases "n < 24";
      auto simp add: quantum_def bit_simps dest: bit_imp_le_length)

lemma bit_quantum2:
  "bit (quantum (take_bit 6 (drop_bit 18 v)) (take_bit 6 (drop_bit 12 v)) 0 0) n =
     (12 \<le> n \<and> n < 24 \<and> bit v n)"
  by (cases "n < 6"; cases "n < 12"; cases "n < 18"; cases "n < 24";
      auto simp add: quantum_def bit_simps dest: bit_imp_le_length)

lemma group_of_three:
  fixes b0 b1 b2 :: byte
  defines "v \<equiv> pack b0 b1 b2"
  defines "q \<equiv> quantum (take_bit 6 (drop_bit 18 v)) (take_bit 6 (drop_bit 12 v))
                  (take_bit 6 (drop_bit 6 v)) (take_bit 6 v)"
  shows "ucast (drop_bit 16 q) = b0" "ucast (drop_bit 8 q) = b1" "ucast q = b2"
  unfolding q_def v_def
  by (rule bit_word_eqI;
      auto simp add: bit_simps bit_quantum4 bit_pack dest: bit_imp_le_length)+

lemma group_of_two:
  fixes b0 b1 :: byte
  defines "v \<equiv> pack b0 b1 0"
  defines "q \<equiv> quantum (take_bit 6 (drop_bit 18 v)) (take_bit 6 (drop_bit 12 v))
                  (take_bit 6 (drop_bit 6 v)) 0"
  shows "ucast (drop_bit 16 q) = b0" "ucast (drop_bit 8 q) = b1"
  unfolding q_def v_def
  by (rule bit_word_eqI;
      auto simp add: bit_simps bit_quantum3 bit_pack dest: bit_imp_le_length)+

lemma group_of_one:
  fixes b0 :: byte
  defines "v \<equiv> pack b0 0 0"
  defines "q \<equiv> quantum (take_bit 6 (drop_bit 18 v)) (take_bit 6 (drop_bit 12 v)) 0 0"
  shows "ucast (drop_bit 16 q) = b0"
  unfolding q_def v_def
  by (rule bit_word_eqI;
      auto simp add: bit_simps bit_quantum2 bit_pack dest: bit_imp_le_length)+

lemma decodeQuanta_EncodeToString: "decodeQuanta (EncodeToString d) = Inr d"
proof (induction d rule: EncodeToString.induct)
  case 1
  show ?case by simp
next
  case (2 b0)
  show ?case
    using group_of_one [of b0]
    by (simp add: Let_def decodeMap_encode decodeMap_padChar sextet_take pack_def)
next
  case (3 b0 b1)
  show ?case
    using group_of_two [of b0 b1]
    by (simp add: Let_def decodeMap_encode decodeMap_padChar sextet_take pack_def)
next
  case (4 b0 b1 b2 rest)
  then show ?case
    using group_of_three [of b0 b1 b2]
    by (simp add: Let_def decodeMap_encode sextet_take pack_def)
qed

lemma DecodeString_EncodeToString: "DecodeString (EncodeToString d) = Inr d"
  by (simp add: DecodeString_def EncodeToString_no_newline decodeQuanta_EncodeToString)

section \<open>The client reader\<close>

lemma commands_differ:
  "bytes_of ''clear'' \<noteq> bytes_of ''cancel''"
  "bytes_of ''clear'' \<noteq> bytes_of ''force''"
  "bytes_of ''cancel'' \<noteq> bytes_of ''force''"
  by (simp_all add: bytes_of_def)

text \<open>
  Claim C6. Each unit read from the client gives at most one call on the upstream writer:
  a binary message gives one \<^verbatim>\<open>SendAudio\<close> (the audio lane) of an event of type
  \<^verbatim>\<open>input_audio_buffer.append\<close> whose \<^verbatim>\<open>audio\<close> field is the base64 text of the payload;
  the text \<^verbatim>\<open>cancel\<close> gives one \<^verbatim>\<open>SendControl\<close> of \<^verbatim>\<open>response.cancel\<close>, \<^verbatim>\<open>clear\<close> one of
  \<^verbatim>\<open>input_audio_buffer.clear\<close>, \<^verbatim>\<open>force\<close> one of \<^verbatim>\<open>response.create\<close>; any other text is
  logged and gives no call.
\<close>

theorem client_unit_translation:
  "client_reader_step (ReadOK BinaryMessage d) s =
     (Continue, s\<lparr>openai_calls := openai_calls s @ [SendAudio (append_event d)]\<rparr>)
   \<and> json_field (append_event d) ''type'' = Some (JString ''input_audio_buffer.append'')
   \<and> json_field (append_event d) ''audio'' = Some (JString (EncodeToString d))
   \<and> client_reader_step (ReadOK TextMessage (bytes_of ''cancel'')) s =
     (Continue, s\<lparr>openai_calls := openai_calls s
         @ [SendControl (JObject [(''type'', JString ''response.cancel'')])],
        logged := logged s @ [LogCmdCancel]\<rparr>)
   \<and> client_reader_step (ReadOK TextMessage (bytes_of ''clear'')) s =
     (Continue, s\<lparr>openai_calls := openai_calls s
         @ [SendControl (JObject [(''type'', JString ''input_audio_buffer.clear'')])],
        logged := logged s @ [LogCmdClear]\<rparr>)
   \<and> client_reader_step (ReadOK TextMessage (bytes_of ''force'')) s =
     (Continue, s\<lparr>openai_calls := openai_calls s
         @ [SendControl (JObject
              [(''type'', JString ''response.create''),
               (''response'', JObject [(''output_modalities'', JArray [JString ''audio''])])])],
        logged := logged s @ [LogCmdForce]\<rparr>)
   \<and> (data \<notin> {bytes_of ''cancel'', bytes_of ''clear'', bytes_of ''force''} \<longrightarrow>
        client_reader_step (ReadOK TextMessage data) s =
          (Continue, s\<lparr>logged := logged s @ [LogClientText data]\<rparr>))"
  by (simp add: BinaryMessage_def TextMessage_def append_event_def
        commands_differ commands_differ [symmetric])

theorem client_unit_translation_witness:
  "bytes_of ''hello'' \<notin> {bytes_of ''cancel'', bytes_of ''clear'', bytes_of ''force''}
   \<and> client_reader_step (ReadOK TextMessage (bytes_of ''hello'')) session_start =
        (Continue,
         session_start\<lparr>logged := logged session_start @ [LogClientText (bytes_of ''hello'')]\<rparr>)
   \<and> openai_calls
        (snd (client_reader_step (ReadOK TextMessage (bytes_of ''cancel'')) session_start))
      = [SendControl session_update,
         SendControl (JObject [(''type'', JString ''response.cancel'')])]"
proof -
  have h: "bytes_of ''hello'' \<notin> {bytes_of ''cancel'', bytes_of ''clear'', bytes_of ''force''}"
    by (simp add: bytes_of_def)
  show ?thesis
    using h client_unit_translation [of "[]" session_start "bytes_of ''hello''"]
    by (simp add: session_start_def)
qed

text \<open>
  Claim C9. The event made for a binary client message with payload \<open>d\<close> is handed to
  \<^verbatim>\<open>SendAudio\<close> and has an \<^verbatim>\<open>audio\<close> field that is a string whose base64 decoding succeeds
  and is exactly \<open>d\<close>.
\<close>

theorem append_audio_round_trip:
  "client_reader_step (ReadOK BinaryMessage d) s =
     (Continue, s\<lparr>openai_calls := openai_calls s @ [SendAudio (append_event d)]\<rparr>)
   \<and> (\<exists>a. json_field (append_event d) ''audio'' = Some (JString a) \<and> DecodeString a = Inr d)"
  by (simp add: BinaryMessage_def append_event_def DecodeString_EncodeToString)

section \<open>The writer: order, capacity and priority\<close>

lemma control_calls_append: "control_calls (xs @ ys) = control_calls xs @ control_calls ys"
  by (induction xs rule: control_calls.induct) simp_all

lemma control_writes_append: "control_writes (xs @ ys) = control_writes xs @ control_writes ys"
  by (induction xs rule: control_writes.induct) simp_all

lemma order_inv_producer: "order_inv s \<Longrightarrow> order_inv (producer_step s)"
  by (auto simp add: order_inv_def producer_step_def control_calls_append
           split: producer_pc.splits list.splits call.splits)

lemma order_inv_step: "order_inv s \<Longrightarrow> order_inv (step e s)"
proof (cases e)
  case Producer
  assume "order_inv s"
  then show ?thesis using Producer by (simp add: order_inv_producer)
next
  case WriteOK
  assume "order_inv s"
  then show ?thesis using WriteOK
    by (cases "loop s"; simp add: order_inv_def control_writes_append)
       (rename_tac l m, case_tac l; simp)
next
  case WriteErr
  assume "order_inv s"
  then show ?thesis using WriteErr
    by (cases "loop s"; simp add: order_inv_def)
       (rename_tac l m, case_tac l; simp)
qed (auto simp add: order_inv_def control_calls_append split: list.splits call.splits)

lemma order_inv_run: "order_inv s \<Longrightarrow> order_inv (run es s)"
  by (induction es arbitrary: s) (simp_all add: order_inv_step)

lemma order_inv_init: "order_inv (NewWSWriter calls)"
  by (simp add: order_inv_def NewWSWriter_def)

lemma progress_inv_producer: "progress_inv calls s \<Longrightarrow> progress_inv calls (producer_step s)"
  by (cases "pc s"; cases "todo s"; cases "audioCh s")
     (auto simp add: progress_inv_def producer_step_def split: call.splits elim: in_call.elims)

lemma progress_inv_step: "progress_inv calls s \<Longrightarrow> progress_inv calls (step e s)"
proof (cases e)
  case Producer
  assume "progress_inv calls s"
  then show ?thesis using Producer by (simp add: progress_inv_producer)
qed (auto simp add: progress_inv_def split: list.splits call.splits loop_pc.splits)

lemma progress_inv_run: "progress_inv calls s \<Longrightarrow> progress_inv calls (run es s)"
  by (induction es arbitrary: s) (simp_all add: progress_inv_step)

lemma progress_inv_init: "progress_inv calls (NewWSWriter calls)"
  by (simp add: progress_inv_def NewWSWriter_def)

lemma control_handoff:
  "returned (step e s) = returned s @ [CallControl m] \<Longrightarrow>
     e = LoopControl \<and> loop s = Select \<and> pc s = Idle \<and> loop (step e s) = Writing Control m"
  by (cases e)
     (auto simp add: producer_step_def
           split: if_splits list.splits call.splits producer_pc.splits loop_pc.splits)

text \<open>
  Claim C3. In every interleaving of the producer, the loop, the ticker and the context,
  and for every list of calls (control calls mixed with any number of audio calls): the
  control messages written to the socket, followed by the one control message the loop has
  received and not written (it is inside \<^verbatim>\<open>WriteMessage\<close>, or its write failed and the loop
  has returned), are exactly the control messages of the \<^verbatim>\<open>SendControl\<close> calls that have
  returned, in call order; the calls return in the order they are made; and a
  \<^verbatim>\<open>SendControl\<close> call returns only in the step in which the loop, at its \<^verbatim>\<open>select\<close>,
  receives its message and goes on to write it.
\<close>

theorem control_lane_order:
  "control_writes (wire (run es (NewWSWriter calls)))
     @ control_unwritten (loop (run es (NewWSWriter calls)))
   = control_calls (returned (run es (NewWSWriter calls)))
   \<and> returned (run es (NewWSWriter calls)) @ todo (run es (NewWSWriter calls)) = calls
   \<and> (returned (step e s) = returned s @ [CallControl m] \<longrightarrow>
        e = LoopControl \<and> loop s = Select \<and> pc s = Idle
        \<and> loop (step e s) = Writing Control m)"
proof -
  have "order_inv (run es (NewWSWriter calls))"
    by (rule order_inv_run [OF order_inv_init])
  moreover have "progress_inv calls (run es (NewWSWriter calls))"
    by (rule progress_inv_run [OF progress_inv_init])
  ultimately show ?thesis
    using control_handoff [of e s m] by (simp add: order_inv_def progress_inv_def)
qed

theorem control_lane_order_witness:
  "returned (step LoopControl (run [Producer] (NewWSWriter [CallAudio [1], CallControl [2], CallControl [3]])))
     = returned (run [Producer] (NewWSWriter [CallAudio [1], CallControl [2], CallControl [3]])) @ [CallControl [2]]
   \<and> loop (step LoopControl (run [Producer] (NewWSWriter [CallAudio [1], CallControl [2], CallControl [3]])))
     = Writing Control [2]
   \<and> control_writes (wire (run [Producer, LoopControl, WriteOK, LoopAudio, WriteOK, LoopControl, WriteOK]
         (NewWSWriter [CallAudio [1], CallControl [2], CallControl [3]]))) = [[2], [3]]"
proof -
  let ?c = "[CallAudio [1], CallControl [2], CallControl [3]]"
  let ?es = "[Producer, LoopControl, WriteOK, LoopAudio, WriteOK, LoopControl, WriteOK]"
  let ?s1 = "run [Producer] (NewWSWriter ?c)"
  have a: "returned (step LoopControl ?s1) = returned ?s1 @ [CallControl [2]]"
    by code_simp
  have b: "control_unwritten (loop (run ?es (NewWSWriter ?c))) = []"
    by code_simp
  have c: "control_calls (returned (run ?es (NewWSWriter ?c))) = [[2], [3]]"
    by code_simp
  note t = control_lane_order [of ?es ?c LoopControl ?s1 "[2]"]
  from t a have d: "loop (step LoopControl ?s1) = Writing Control [2]"
    by blast
  from t have "control_writes (wire (run ?es (NewWSWriter ?c)))
      @ control_unwritten (loop (run ?es (NewWSWriter ?c)))
      = control_calls (returned (run ?es (NewWSWriter ?c)))"
    by (rule conjunct1)
  then have e: "control_writes (wire (run ?es (NewWSWriter ?c))) = [[2], [3]]"
    unfolding b c by (simp only: append_Nil2)
  from a d e show ?thesis by (intro conjI)
qed

lemma cap_producer:
  "length (audioCh s) \<le> audioCap \<Longrightarrow> length (audioCh (producer_step s)) \<le> audioCap"
  by (auto simp add: producer_step_def split: producer_pc.splits list.splits call.splits)

lemma cap_step: "length (audioCh s) \<le> audioCap \<Longrightarrow> length (audioCh (step e s)) \<le> audioCap"
  by (cases e) (auto simp add: cap_producer split: list.splits call.splits loop_pc.splits)

lemma cap_run: "length (audioCh s) \<le> audioCap \<Longrightarrow> length (audioCh (run es s)) \<le> audioCap"
  by (induction es arbitrary: s) (simp_all add: cap_step)

lemma evict_oldest:
  assumes "pc s = Idle" "todo s = CallAudio b # rest" "audioCh s = a # q"
    "length (audioCh s) = audioCap"
  shows "run [Producer] s = s\<lparr>pc := Evict b\<rparr>"
    and "run [Producer, Producer] s = s\<lparr>audioCh := q, pc := Refill b\<rparr>"
    and "run [Producer, Producer, Producer] s =
           s\<lparr>audioCh := q @ [b], pc := Idle, todo := rest,
             returned := returned s @ [CallAudio b]\<rparr>"
  using assms by (simp_all add: producer_step_def audioCap_def)

text \<open>
  What holds of the audio lane. In every interleaving the buffer holds at most
  \<open>audioCap\<close> items. A \<^verbatim>\<open>SendAudio\<close> call made when the buffer is full, and whose three
  statements run with no step of the loop in between, takes the \<^verbatim>\<open>default\<close> branch,
  removes the item at the head of the buffer (the oldest) and nothing else, and then
  appends the new item. When the receive of that branch finds the buffer not empty, it
  removes the head of the buffer and nothing else.
\<close>

theorem audio_lane_evicts_oldest:
  "length (audioCh (run es (NewWSWriter calls))) \<le> audioCap
   \<and> (pc s = Idle \<and> todo s = CallAudio b # rest \<and> audioCh s = a # q
        \<and> length (audioCh s) = audioCap \<longrightarrow>
      run [Producer] s = s\<lparr>pc := Evict b\<rparr>
      \<and> run [Producer, Producer] s = s\<lparr>audioCh := q, pc := Refill b\<rparr>
      \<and> run [Producer, Producer, Producer] s =
          s\<lparr>audioCh := q @ [b], pc := Idle, todo := rest,
            returned := returned s @ [CallAudio b]\<rparr>)
   \<and> (pc t = Evict c \<and> audioCh t = a' # q' \<longrightarrow>
        step Producer t = t\<lparr>audioCh := q', pc := Refill c\<rparr>)"
proof (intro conjI impI)
  show "length (audioCh (run es (NewWSWriter calls))) \<le> audioCap"
    by (rule cap_run) (simp add: NewWSWriter_def)
next
  assume h: "pc s = Idle \<and> todo s = CallAudio b # rest \<and> audioCh s = a # q
        \<and> length (audioCh s) = audioCap"
  from h have 1: "pc s = Idle" by (rule conjunct1)
  from h have 2: "todo s = CallAudio b # rest" by blast
  from h have 3: "audioCh s = a # q" by blast
  from h have 4: "length (audioCh s) = audioCap" by blast
  show "run [Producer] s = s\<lparr>pc := Evict b\<rparr>"
    by (rule evict_oldest (1) [OF 1 2 3 4])
  show "run [Producer, Producer] s = s\<lparr>audioCh := q, pc := Refill b\<rparr>"
    by (rule evict_oldest (2) [OF 1 2 3 4])
  show "run [Producer, Producer, Producer] s =
          s\<lparr>audioCh := q @ [b], pc := Idle, todo := rest,
            returned := returned s @ [CallAudio b]\<rparr>"
    by (rule evict_oldest (3) [OF 1 2 3 4])
next
  assume "pc t = Evict c \<and> audioCh t = a' # q'"
  then show "step Producer t = t\<lparr>audioCh := q', pc := Refill c\<rparr>"
    by (simp add: producer_step_def)
qed

theorem audio_lane_evicts_oldest_witness:
  "length (audioCh (run [Producer, Producer, Producer, Producer]
      (NewWSWriter [CallAudio [1], CallAudio [2], CallAudio [3], CallAudio [4], CallAudio [5]])))
   = audioCap
   \<and> audioCh (run [Producer, Producer, Producer]
        (run [Producer, Producer, Producer, Producer]
          (NewWSWriter [CallAudio [1], CallAudio [2], CallAudio [3], CallAudio [4], CallAudio [5]])))
     = [[2], [3], [4], [5]]
   \<and> audioCh (step Producer
        (run [Producer, Producer, Producer, Producer, Producer, LoopAudio]
          (NewWSWriter [CallAudio [1], CallAudio [2], CallAudio [3], CallAudio [4], CallAudio [5]])))
     = [[3], [4]]"
proof -
  let ?c = "[CallAudio [1], CallAudio [2], CallAudio [3], CallAudio [4], CallAudio [5]]"
  let ?s = "run [Producer, Producer, Producer, Producer] (NewWSWriter ?c)"
  let ?t = "run [Producer, Producer, Producer, Producer, Producer, LoopAudio] (NewWSWriter ?c)"
  have h: "pc ?s = Idle \<and> todo ?s = CallAudio [5] # [] \<and> audioCh ?s = [1] # [[2], [3], [4]]
        \<and> length (audioCh ?s) = audioCap"
    by code_simp
  have k: "pc ?t = Evict [5] \<and> audioCh ?t = [2] # [[3], [4]]"
    by code_simp
  note inst = audio_lane_evicts_oldest [of "[]" "[]" ?s "[5]" "[]" "[1]" "[[2], [3], [4]]"
      ?t "[5]" "[2]" "[[3], [4]]"]
  from inst h
  have "run [Producer, Producer, Producer] ?s =
          ?s\<lparr>audioCh := [[2], [3], [4]] @ [[5]], pc := Idle, todo := [],
            returned := returned ?s @ [CallAudio [5]]\<rparr>"
    by blast
  then have "audioCh (run [Producer, Producer, Producer] ?s) = [[2], [3], [4], [5]]"
    by simp
  moreover from h have "length (audioCh ?s) = audioCap" by blast
  moreover from inst k have "step Producer ?t = ?t\<lparr>audioCh := [[3], [4]], pc := Refill [5]\<rparr>"
    by blast
  then have "audioCh (step Producer ?t) = [[3], [4]]" by simp
  ultimately show ?thesis by (intro conjI)
qed

text \<open>
  While the producer waits in the receive of the \<^verbatim>\<open>default\<close> branch with the buffer
  empty, no step changes that: the buffer stays empty (only this goroutine sends on
  \<open>audioCh\<close>), and the call neither returns nor is followed by another.
\<close>

lemma evict_waits_step:
  "pc s = Evict b \<Longrightarrow> audioCh s = [] \<Longrightarrow>
     pc (step e s) = Evict b \<and> audioCh (step e s) = []
     \<and> todo (step e s) = todo s \<and> returned (step e s) = returned s"
  by (cases e) (auto simp add: producer_step_def split: list.splits call.splits loop_pc.splits)

lemma evict_waits_run:
  "pc s = Evict b \<Longrightarrow> audioCh s = [] \<Longrightarrow>
     pc (run es s) = Evict b \<and> audioCh (run es s) = []
     \<and> todo (run es s) = todo s \<and> returned (run es s) = returned s"
proof (induction es arbitrary: s)
  case Nil
  then show ?case by simp
next
  case (Cons e es)
  from evict_waits_step [OF Cons.prems, of e]
  have 1: "pc (step e s) = Evict b" and 2: "audioCh (step e s) = []"
    and 3: "todo (step e s) = todo s" and 4: "returned (step e s) = returned s"
    by simp_all
  from Cons.IH [OF 1 2] 3 4 show ?case by simp
qed

text \<open>
  Claim C4 at a concrete input: the calls are a control message and five audio items (as
  \<^verbatim>\<open>session.update\<close> and five binary client frames give them). While the loop writes the
  control message the producer queues four items, so the buffer is at capacity (first
  line), and the fifth \<^verbatim>\<open>SendAudio\<close> takes the \<^verbatim>\<open>default\<close> branch (second line). Before the
  producer runs the receive of that branch, the loop writes all four queued items (third
  line). From then on, whatever happens, the call stays in its receive: it has evicted no
  item, the buffer stays empty and the fifth item is never inserted (last three lines).
\<close>

theorem send_audio_blocks_on_drained_lane:
  "audioCh (run [LoopControl, Producer, Producer, Producer, Producer]
      (NewWSWriter [CallControl [0x73], CallAudio [1], CallAudio [2], CallAudio [3],
                    CallAudio [4], CallAudio [5]]))
     = [[1], [2], [3], [4]]
   \<and> pc (run [Producer]
      (run [LoopControl, Producer, Producer, Producer, Producer]
        (NewWSWriter [CallControl [0x73], CallAudio [1], CallAudio [2], CallAudio [3],
                      CallAudio [4], CallAudio [5]])))
     = Evict [5]
   \<and> wire (run [WriteOK, LoopAudio, WriteOK, LoopAudio, WriteOK, LoopAudio, WriteOK,
                LoopAudio, WriteOK]
      (run [Producer]
        (run [LoopControl, Producer, Producer, Producer, Producer]
          (NewWSWriter [CallControl [0x73], CallAudio [1], CallAudio [2], CallAudio [3],
                        CallAudio [4], CallAudio [5]]))))
     = [(Control, TextMessage, [0x73]), (Audio, TextMessage, [1]), (Audio, TextMessage, [2]),
        (Audio, TextMessage, [3]), (Audio, TextMessage, [4])]
   \<and> pc (run es
      (run [WriteOK, LoopAudio, WriteOK, LoopAudio, WriteOK, LoopAudio, WriteOK,
            LoopAudio, WriteOK]
        (run [Producer]
          (run [LoopControl, Producer, Producer, Producer, Producer]
            (NewWSWriter [CallControl [0x73], CallAudio [1], CallAudio [2], CallAudio [3],
                          CallAudio [4], CallAudio [5]])))))
     = Evict [5]
   \<and> audioCh (run es
      (run [WriteOK, LoopAudio, WriteOK, LoopAudio, WriteOK, LoopAudio, WriteOK,
            LoopAudio, WriteOK]
        (run [Producer]
          (run [LoopControl, Producer, Producer, Producer, Producer]
            (NewWSWriter [CallControl [0x73], CallAudio [1], CallAudio [2], CallAudio [3],
                          CallAudio [4], CallAudio [5]])))))
     = []
   \<and> todo (run es
      (run [WriteOK, LoopAudio, WriteOK, LoopAudio, WriteOK, LoopAudio, WriteOK,
            LoopAudio, WriteOK]
        (run [Producer]
          (run [LoopControl, Producer, Producer, Producer, Producer]
            (NewWSWriter [CallControl [0x73], CallAudio [1], CallAudio [2], CallAudio [3],
                          CallAudio [4], CallAudio [5]])))))
     = [CallAudio [5]]"
proof -
  let ?ret = "[CallControl [0x73], CallAudio [1], CallAudio [2], CallAudio [3], CallAudio [4]]"
  let ?r1 = "\<lparr>todo = [CallAudio [5]], returned = ?ret, pc = Idle,
      audioCh = [[1], [2], [3], [4]], tick = False, ctx_done = False,
      loop = Writing Control [0x73], wire = []\<rparr>"
  let ?r2 = "\<lparr>todo = [CallAudio [5]], returned = ?ret, pc = Evict [5],
      audioCh = [[1], [2], [3], [4]], tick = False, ctx_done = False,
      loop = Writing Control [0x73], wire = []\<rparr>"
  let ?r3 = "\<lparr>todo = [CallAudio [5]], returned = ?ret, pc = Evict [5],
      audioCh = [[3], [4]], tick = False, ctx_done = False, loop = Select,
      wire = [(Control, TextMessage, [0x73]), (Audio, TextMessage, [1]),
              (Audio, TextMessage, [2])]\<rparr>"
  let ?r4 = "\<lparr>todo = [CallAudio [5]], returned = ?ret, pc = Evict [5],
      audioCh = [], tick = False, ctx_done = False, loop = Select,
      wire = [(Control, TextMessage, [0x73]), (Audio, TextMessage, [1]),
              (Audio, TextMessage, [2]), (Audio, TextMessage, [3]),
              (Audio, TextMessage, [4])]\<rparr>"
  have e1: "run [LoopControl, Producer, Producer, Producer, Producer]
      (NewWSWriter [CallControl [0x73], CallAudio [1], CallAudio [2], CallAudio [3],
                    CallAudio [4], CallAudio [5]]) = ?r1"
    by code_simp
  have e2: "run [Producer] ?r1 = ?r2"
    by code_simp
  have split: "run [WriteOK, LoopAudio, WriteOK, LoopAudio, WriteOK, LoopAudio, WriteOK,
                LoopAudio, WriteOK] ?r2
      = run [LoopAudio, WriteOK, LoopAudio, WriteOK]
          (run [WriteOK, LoopAudio, WriteOK, LoopAudio, WriteOK] ?r2)"
    by (simp only: run.simps)
  have e3: "run [WriteOK, LoopAudio, WriteOK, LoopAudio, WriteOK] ?r2 = ?r3"
    by code_simp
  have e4: "run [LoopAudio, WriteOK, LoopAudio, WriteOK] ?r3 = ?r4"
    by code_simp
  have e5: "run [WriteOK, LoopAudio, WriteOK, LoopAudio, WriteOK, LoopAudio, WriteOK,
                LoopAudio, WriteOK] ?r2 = ?r4"
    by (simp only: split e3 e4)
  have p: "pc ?r4 = Evict [5]" and a: "audioCh ?r4 = []" and t: "todo ?r4 = [CallAudio [5]]"
    by simp_all
  from evict_waits_run [OF p a, of es] t
  have w: "pc (run es ?r4) = Evict [5] \<and> audioCh (run es ?r4) = []
      \<and> todo (run es ?r4) = [CallAudio [5]]"
    by simp
  show ?thesis
    unfolding e1 e2 e5 using w by simp
qed

text \<open>
  Claim C5 at a concrete input: the calls are a control message, an audio item and a second
  control message (as \<^verbatim>\<open>session.update\<close>, a binary client frame and the text \<^verbatim>\<open>cancel\<close>
  give them). While the loop writes the first message the producer queues the audio item
  and blocks in the second \<^verbatim>\<open>SendControl\<close>. Back at its \<^verbatim>\<open>select\<close> the loop can receive
  from \<open>controlCh\<close> (first line). It can as well receive from \<open>audioCh\<close>: the audio item
  is written while the control message waits (second and third line). With a tick pending
  it can take the ticker case: a ping is written while the audio item and the control
  message wait (last three lines).
\<close>

theorem select_has_no_priority:
  "loop (step LoopControl (run [LoopControl, Producer, WriteOK]
      (NewWSWriter [CallControl [0x73], CallAudio [0x61], CallControl [0x63]])))
     = Writing Control [0x63]
   \<and> wire (run [LoopControl, Producer, WriteOK, LoopAudio, WriteOK]
      (NewWSWriter [CallControl [0x73], CallAudio [0x61], CallControl [0x63]]))
     = [(Control, TextMessage, [0x73]), (Audio, TextMessage, [0x61])]
   \<and> todo (run [LoopControl, Producer, WriteOK, LoopAudio, WriteOK]
      (NewWSWriter [CallControl [0x73], CallAudio [0x61], CallControl [0x63]]))
     = [CallControl [0x63]]
   \<and> wire (run [LoopControl, Producer, WriteOK, Tick, LoopPing, WriteOK]
      (NewWSWriter [CallControl [0x73], CallAudio [0x61], CallControl [0x63]]))
     = [(Control, TextMessage, [0x73]), (Ping, PingMessage, [])]
   \<and> audioCh (run [LoopControl, Producer, WriteOK, Tick, LoopPing, WriteOK]
      (NewWSWriter [CallControl [0x73], CallAudio [0x61], CallControl [0x63]]))
     = [[0x61]]
   \<and> todo (run [LoopControl, Producer, WriteOK, Tick, LoopPing, WriteOK]
      (NewWSWriter [CallControl [0x73], CallAudio [0x61], CallControl [0x63]]))
     = [CallControl [0x63]]"
  by code_simp

section \<open>The upstream receiver\<close>

lemma same_effects_refl: "same_effects s s"
  by (simp add: same_effects_def)

lemma same_effects_logged: "same_effects (s\<lparr>logged := l\<rparr>) s"
  by (simp add: same_effects_def)

lemma receiver_step_same_effects:
  "same_effects s t \<Longrightarrow>
     fst (openai_receiver_step L rd werr s) = fst (openai_receiver_step L rd werr t)
     \<and> same_effects (snd (openai_receiver_step L rd werr s)) (snd (openai_receiver_step L rd werr t))"
  by (cases rd) (auto simp add: same_effects_def Let_def split: option.splits sum.splits)

lemma receiver_same_effects:
  "same_effects s t \<Longrightarrow> same_effects (openai_receiver L xs s) (openai_receiver L xs t)"
proof (induction xs arbitrary: s t)
  case Nil
  then show ?case by simp
next
  case (Cons x xs)
  obtain rd werr where x: "x = (rd, werr)" by (cases x)
  obtain f s' where s': "openai_receiver_step L rd werr s = (f, s')"
    by (cases "openai_receiver_step L rd werr s")
  obtain g t' where t': "openai_receiver_step L rd werr t = (g, t')"
    by (cases "openai_receiver_step L rd werr t")
  from receiver_step_same_effects [OF Cons.prems, of L rd werr] s' t'
  have fg: "f = g" and st: "same_effects s' t'" by simp_all
  show ?case
  proof (cases f)
    case Continue
    with fg x s' t' Cons.IH [OF st] show ?thesis by simp
  next
    case Return
    with fg x s' t' st show ?thesis by simp
  qed
qed

lemma malformed_step:
  "malformed L msg \<Longrightarrow>
     openai_receiver_step L (ReadOK mt msg) werr s =
       (Continue, s\<lparr>logged := logged s @
          [if json_Unmarshal L msg = None then LogOpenAIJsonError else LogDecodeDeltaError]\<rparr>)"
  by (auto simp add: malformed_def Let_def split: option.splits sum.splits)

lemma skip_malformed:
  "malformed L msg \<Longrightarrow>
     same_effects (openai_receiver L (pre @ (ReadOK mt msg, werr) # post) s)
                  (openai_receiver L (pre @ post) s)"
proof (induction pre arbitrary: s)
  case Nil
  have "same_effects (s\<lparr>logged := logged s @
          [if json_Unmarshal L msg = None then LogOpenAIJsonError else LogDecodeDeltaError]\<rparr>) s"
    by (rule same_effects_logged)
  then show ?case
    using malformed_step [OF Nil.prems, of mt werr s]
    by (simp add: receiver_same_effects)
next
  case (Cons x pre)
  obtain rd w where x: "x = (rd, w)" by (cases x)
  obtain f s' where s': "openai_receiver_step L rd w s = (f, s')"
    by (cases "openai_receiver_step L rd w s")
  show ?case
  proof (cases f)
    case Continue
    with x s' Cons.IH [OF Cons.prems, of s'] show ?thesis by simp
  next
    case Return
    with x s' show ?thesis by (simp add: same_effects_refl)
  qed
qed

text \<open>
  Claim C7. For a malformed upstream unit (the message is not JSON, or it is an audio delta
  whose payload is not base64) the iteration writes nothing to the client, calls nothing on
  the upstream writer, does not cancel the session and goes on to the next read: the
  session is as before but for one log line. The messages written to the client, the calls
  on the writer and the cancellation flag at the end of any sequence of reads are those of
  the same sequence without the malformed unit.
\<close>

theorem malformed_unit_discarded:
  "malformed L msg \<longrightarrow>
     openai_receiver_step L (ReadOK mt msg) werr s =
       (Continue, s\<lparr>logged := logged s @
          [if json_Unmarshal L msg = None then LogOpenAIJsonError else LogDecodeDeltaError]\<rparr>)
     \<and> same_effects (openai_receiver L (pre @ (ReadOK mt msg, werr) # post) t)
                    (openai_receiver L (pre @ post) t)"
  using malformed_step [of L msg mt werr s] skip_malformed [of L msg pre mt werr post t]
  by blast

theorem malformed_unit_discarded_witness:
  "malformed
     (example_lib [([2], [(''type'', JString ''response.output_audio.delta''), (''delta'', JString ''!!!!'')]),
                   ([3], [(''type'', JString ''response.output_audio.delta''), (''delta'', JString ''AAA='')])])
     [2]
   \<and> malformed
     (example_lib [([2], [(''type'', JString ''response.output_audio.delta''), (''delta'', JString ''!!!!'')]),
                   ([3], [(''type'', JString ''response.output_audio.delta''), (''delta'', JString ''AAA='')])])
     [1]
   \<and> client_writes (openai_receiver
     (example_lib [([2], [(''type'', JString ''response.output_audio.delta''), (''delta'', JString ''!!!!'')]),
                   ([3], [(''type'', JString ''response.output_audio.delta''), (''delta'', JString ''AAA='')])])
     ([(ReadOK TextMessage [3], False)] @ (ReadOK TextMessage [2], False) # [(ReadOK TextMessage [3], False)])
     session_start) = [(BinaryMessage, [0, 0]), (BinaryMessage, [0, 0])]
   \<and> \<not> cancelled (openai_receiver
     (example_lib [([2], [(''type'', JString ''response.output_audio.delta''), (''delta'', JString ''!!!!'')]),
                   ([3], [(''type'', JString ''response.output_audio.delta''), (''delta'', JString ''AAA='')])])
     ([(ReadOK TextMessage [3], False)] @ (ReadOK TextMessage [2], False) # [(ReadOK TextMessage [3], False)])
     session_start)"
proof -
  let ?L = "example_lib [([2], [(''type'', JString ''response.output_audio.delta''), (''delta'', JString ''!!!!'')]),
                   ([3], [(''type'', JString ''response.output_audio.delta''), (''delta'', JString ''AAA='')])]"
  let ?ok = "(ReadOK TextMessage [3], False)"
  have m2: "malformed ?L [2]" by code_simp
  have m1: "malformed ?L [1]" by code_simp
  have r: "client_writes (openai_receiver ?L ([?ok] @ [?ok]) session_start)
      = [(BinaryMessage, [0, 0]), (BinaryMessage, [0, 0])]"
    by code_simp
  have c: "\<not> cancelled (openai_receiver ?L ([?ok] @ [?ok]) session_start)"
    by code_simp
  from malformed_unit_discarded [of ?L "[2]" TextMessage False session_start "[?ok]" "[?ok]" session_start] m2
  have "same_effects (openai_receiver ?L ([?ok] @ (ReadOK TextMessage [2], False) # [?ok]) session_start)
          (openai_receiver ?L ([?ok] @ [?ok]) session_start)"
    by blast
  then have "client_writes (openai_receiver ?L ([?ok] @ (ReadOK TextMessage [2], False) # [?ok]) session_start)
       = client_writes (openai_receiver ?L ([?ok] @ [?ok]) session_start)"
    and "cancelled (openai_receiver ?L ([?ok] @ (ReadOK TextMessage [2], False) # [?ok]) session_start)
       = cancelled (openai_receiver ?L ([?ok] @ [?ok]) session_start)"
    unfolding same_effects_def by blast+
  with r c m1 m2 show ?thesis by (simp only: simp_thms)
qed

text \<open>
  Claim C8. For an upstream event of type \<^verbatim>\<open>error\<close> the iteration issues one write to the
  client, a text message carrying the indented JSON of the event, logs it, does not cancel
  the session and goes on to the next read.
\<close>

theorem error_event_forwarded:
  "json_Unmarshal L msg = Some evt \<and> string_field evt ''type'' = ''error'' \<longrightarrow>
     openai_receiver_step L (ReadOK mt msg) werr s =
       (Continue, s\<lparr>client_writes := client_writes s @ [(TextMessage, json_MarshalIndent L evt)],
                     logged := logged s @ [LogOpenAIErrorEvent (json_MarshalIndent L evt)]\<rparr>)
     \<and> openai_receiver L ((ReadOK mt msg, werr) # rest) s =
         openai_receiver L rest
           (s\<lparr>client_writes := client_writes s @ [(TextMessage, json_MarshalIndent L evt)],
              logged := logged s @ [LogOpenAIErrorEvent (json_MarshalIndent L evt)]\<rparr>)"
  by (simp add: Let_def)

theorem error_event_forwarded_witness:
  "json_Unmarshal (example_lib [([1], [(''type'', JString ''error''), (''code'', JNumber 7)])]) [1]
     = Some [(''type'', JString ''error''), (''code'', JNumber 7)]
   \<and> string_field [(''type'', JString ''error''), (''code'', JNumber 7)] ''type'' = ''error''
   \<and> openai_receiver_step (example_lib [([1], [(''type'', JString ''error''), (''code'', JNumber 7)])])
        (ReadOK TextMessage [1]) False session_start =
       (Continue, session_start\<lparr>client_writes := [(TextMessage, bytes_of ''error'')],
          logged := [LogClientConnected, LogSessionUpdateSent, LogOpenAIErrorEvent (bytes_of ''error'')]\<rparr>)"
proof -
  let ?evt = "[(''type'', JString ''error''), (''code'', JNumber 7)]"
  let ?L = "example_lib [([1], ?evt)]"
  have h: "json_Unmarshal ?L [1] = Some ?evt \<and> string_field ?evt ''type'' = ''error''"
    by (simp add: example_lib_def string_field_def)
  have m: "json_MarshalIndent ?L ?evt = bytes_of ''error''"
    by (simp add: example_lib_def string_field_def)
  from error_event_forwarded [of ?L "[1]" ?evt TextMessage False session_start "[]"] h
  have "openai_receiver_step ?L (ReadOK TextMessage [1]) False session_start =
       (Continue, session_start\<lparr>client_writes := client_writes session_start @ [(TextMessage, json_MarshalIndent ?L ?evt)],
                     logged := logged session_start @ [LogOpenAIErrorEvent (json_MarshalIndent ?L ?evt)]\<rparr>)"
    by blast
  then have "openai_receiver_step ?L (ReadOK TextMessage [1]) False session_start =
       (Continue, session_start\<lparr>client_writes := [(TextMessage, bytes_of ''error'')],
          logged := [LogClientConnected, LogSessionUpdateSent, LogOpenAIErrorEvent (bytes_of ''error'')]\<rparr>)"
    unfolding m by (simp add: session_start_def)
  with h show ?thesis by blast
qed

text \<open>
  Claim C10. For a decoded upstream event whose type is neither \<^verbatim>\<open>error\<close> nor
  \<^verbatim>\<open>response.output_audio.delta\<close> (so for \<^verbatim>\<open>response.done\<close>, for a speech-started event and
  for any other type) the iteration writes nothing to the client, calls nothing on the
  upstream writer, does not cancel the session and goes on to the next read: the session is
  as before but for one log line.
\<close>

theorem other_events_change_nothing:
  "json_Unmarshal L msg = Some evt \<and> string_field evt ''type'' \<noteq> ''error''
     \<and> string_field evt ''type'' \<noteq> ''response.output_audio.delta'' \<longrightarrow>
     openai_receiver_step L (ReadOK mt msg) werr s =
       (Continue, s\<lparr>logged := logged s @
          [if string_field evt ''type'' = ''response.done'' then LogResponseDone
           else LogOpenAIEvent (string_field evt ''type'')]\<rparr>)"
  by (simp add: Let_def)

theorem other_events_change_nothing_witness:
  "openai_receiver_step
     (example_lib [([1], [(''type'', JString ''input_audio_buffer.speech_started'')]),
                   ([2], [(''type'', JString ''response.done'')])])
     (ReadOK TextMessage [1]) False session_start
   = (Continue, session_start\<lparr>logged := logged session_start
        @ [LogOpenAIEvent ''input_audio_buffer.speech_started'']\<rparr>)
   \<and> openai_receiver_step
     (example_lib [([1], [(''type'', JString ''input_audio_buffer.speech_started'')]),
                   ([2], [(''type'', JString ''response.done'')])])
     (ReadOK TextMessage [2]) False session_start
   = (Continue, session_start\<lparr>logged := logged session_start @ [LogResponseDone]\<rparr>)"
proof -
  let ?e1 = "[(''type'', JString ''input_audio_buffer.speech_started'')]"
  let ?e2 = "[(''type'', JString ''response.done'')]"
  let ?L = "example_lib [([1], ?e1), ([2], ?e2)]"
  have h1: "json_Unmarshal ?L [1] = Some ?e1 \<and> string_field ?e1 ''type'' \<noteq> ''error''
     \<and> string_field ?e1 ''type'' \<noteq> ''response.output_audio.delta''"
    by (simp add: example_lib_def string_field_def)
  have h2: "json_Unmarshal ?L [2] = Some ?e2 \<and> string_field ?e2 ''type'' \<noteq> ''error''
     \<and> string_field ?e2 ''type'' \<noteq> ''response.output_audio.delta''"
    by (simp add: example_lib_def string_field_def)
  have t1: "string_field ?e1 ''type'' = ''input_audio_buffer.speech_started''"
    by (simp add: string_field_def)
  have t2: "string_field ?e2 ''type'' = ''response.done''"
    by (simp add: string_field_def)
  from other_events_change_nothing [of ?L "[1]" ?e1 TextMessage False session_start] h1
  have a: "openai_receiver_step ?L (ReadOK TextMessage [1]) False session_start =
       (Continue, session_start\<lparr>logged := logged session_start @
          [if string_field ?e1 ''type'' = ''response.done'' then LogResponseDone
           else LogOpenAIEvent (string_field ?e1 ''type'')]\<rparr>)"
    by blast
  from other_events_change_nothing [of ?L "[2]" ?e2 TextMessage False session_start] h2
  have b: "openai_receiver_step ?L (ReadOK TextMessage [2]) False session_start =
       (Continue, session_start\<lparr>logged := logged session_start @
          [if string_field ?e2 ''type'' = ''response.done'' then LogResponseDone
           else LogOpenAIEvent (string_field ?e2 ''type'')]\<rparr>)"
    by blast
  from a b show ?thesis unfolding t1 t2 by simp
qed

text \<open>
  Claim C1 at a concrete input. The upstream message decodes to an audio delta whose
  payload is the base64 text of the two bytes \<^verbatim>\<open>00 00\<close>. The handler, which has no mode
  flag and no generation, writes these two bytes as the whole binary message. The
  documented frame for them in framed mode, at generation 0, has eleven bytes and starts
  with the tag \<^verbatim>\<open>0x01\<close>; at no generation is the documented frame the bare payload.
\<close>

theorem audio_written_without_frame_header:
  "client_writes (snd (openai_receiver_step
      (example_lib [([1], [(''type'', JString ''response.output_audio.delta''), (''delta'', JString ''AAA='')])])
      (ReadOK TextMessage [1]) False session_start))
   = [(BinaryMessage, [0, 0])]
   \<and> spec_currentFrame False 0 [0, 0] = [1, 0, 0, 0, 0, 0, 0, 0, 0, 0, 0]
   \<and> (\<forall>g pcm. spec_currentFrame False g pcm \<noteq> pcm)"
proof -
  have "\<forall>g pcm. spec_currentFrame False g pcm \<noteq> pcm"
  proof (intro allI notI)
    fix g pcm
    assume "spec_currentFrame False g pcm = pcm"
    then have "length (spec_currentFrame False g pcm) = length pcm" by simp
    then show False by (simp add: spec_currentFrame_def le64_def)
  qed
  moreover have "client_writes (snd (openai_receiver_step
      (example_lib [([1], [(''type'', JString ''response.output_audio.delta''), (''delta'', JString ''AAA='')])])
      (ReadOK TextMessage [1]) False session_start))
   = [(BinaryMessage, [0, 0])]"
    by code_simp
  moreover have "spec_currentFrame False 0 [0, 0] = [1, 0, 0, 0, 0, 0, 0, 0, 0, 0, 0]"
    by code_simp
  ultimately show ?thesis by blast
qed

text \<open>
  Claim C2 at a concrete input. Two audio deltas arrive, of nine bytes each: \<^verbatim>\<open>01 05 00 ..\<close>
  and \<^verbatim>\<open>01 03 00 ..\<close>. The handler writes each payload as it is, so a client that reads
  the writes as documented frames finds generation 5 and then generation 3.
\<close>

theorem wire_carries_no_generation:
  "map (\<lambda>m. (fst m, spec_frame_generation (snd m)))
     (client_writes (openai_receiver
        (example_lib
          [([1], [(''type'', JString ''response.output_audio.delta''), (''delta'', JString ''AQUAAAAAAAAA'')]),
           ([2], [(''type'', JString ''response.output_audio.delta''), (''delta'', JString ''AQMAAAAAAAAA'')])])
        [(ReadOK TextMessage [1], False), (ReadOK TextMessage [2], False)] session_start))
   = [(BinaryMessage, Some 5), (BinaryMessage, Some 3)]"
  by code_simp

end
